theory Spec2Isabelle
  imports Main
begin

section \<open>Data model of d20/models.py\<close>

text \<open>
  Numbers. The model covers the values that are Python \<open>int\<close>s: unbounded integers,
  on which \<open>+\<close>, \<open>-\<close>, \<open>*\<close>, \<open>//\<close>, \<open>%\<close> and the comparisons are exact (\<open>//\<close> rounds
  towards minus infinity and \<open>%\<close> takes the sign of the divisor, as \<open>div\<close> and \<open>mod\<close>
  on \<open>int\<close> do). Python \<open>float\<close>s are not represented: a literal is an integer, and
  true division, whose result is always a float, ends the model's evaluation with the
  marker \<open>FloatResult\<close> below.
\<close>

type_synonym pynum = int

text \<open>
  The exceptions the core can raise. \<open>RollValueError\<close> carries its message.
  \<open>ZeroDivisionError\<close> is raised by the arithmetic lambdas and caught inside
  \<open>BinOp.number\<close>. \<open>TooManyRolls\<close> is the failure of the roll-count context.
  \<open>OutOfRolls\<close> and \<open>FloatResult\<close> are not exceptions of the program. \<open>OutOfRolls\<close> marks
  that the finite list of random outcomes given to the model has been used up.
  \<open>FloatResult\<close> marks that a true division by a non-zero number was evaluated: Python
  goes on with a float (or raises OverflowError when the quotient is too large for
  one), and the model says nothing about what follows.
\<close>

datatype error =
    RollValueError string
  | ZeroDivisionError
  | KeyError
  | IndexError
  | AttributeError
  | TooManyRolls
  | OutOfRolls
  | FloatResult

record SetSelector =
  cat :: "string option"
  num :: int

record SetOperator =
  op :: string
  sels :: "SetSelector list"

text \<open>class Literal(Number): slots kept, annotation, values, exploded.\<close>

record literal =
  l_kept :: bool
  l_annotation :: "string option"
  l_values :: "pynum list"
  l_exploded :: bool

text \<open>
  class Die(Number): slots kept, annotation, size, values (list of Literal), _context.
  The context is a reference to a roll-count context object, or None.
\<close>

record die =
  d_kept :: bool
  d_annotation :: "string option"
  d_size :: int
  d_values :: "literal list"
  d_context :: "nat option"

text \<open>
  The node hierarchy. Every constructor but \<open>Literal\<close> and \<open>Die\<close> starts with the
  two slots of \<open>Number\<close> (kept, annotation). The tree owns its sub-nodes (no sharing),
  so an object is identified by its position in the tree.
\<close>

datatype node =
    Expression bool "string option" node string
  | Literal literal
  | UnOp bool "string option" string node
  | BinOp bool "string option" node string node
  | Parenthetical bool "string option" node "SetOperator list"
  | Set bool "string option" "node list" "SetOperator list"
  | Dice bool "string option" int int "die list" "SetOperator list" "nat option"
  | Die die

fun kept :: "node \<Rightarrow> bool" where
  "kept (Expression k a r c) = k"
| "kept (Literal l) = l_kept l"
| "kept (UnOp k a o1 v) = k"
| "kept (BinOp k a l o2 r) = k"
| "kept (Parenthetical k a v ops) = k"
| "kept (Set k a vs ops) = k"
| "kept (Dice k a n s ds ops c) = k"
| "kept (Die d) = d_kept d"

text \<open>Number.drop: self.kept = False.\<close>

definition lit_drop :: "literal \<Rightarrow> literal" where
  "lit_drop l = l\<lparr>l_kept := False\<rparr>"

definition die_drop :: "die \<Rightarrow> die" where
  "die_drop d = d\<lparr>d_kept := False\<rparr>"

fun drop_node :: "node \<Rightarrow> node" where
  "drop_node (Expression k a r c) = Expression False a r c"
| "drop_node (Literal l) = Literal (lit_drop l)"
| "drop_node (UnOp k a o1 v) = UnOp False a o1 v"
| "drop_node (BinOp k a l o2 r) = BinOp False a l o2 r"
| "drop_node (Parenthetical k a v ops) = Parenthetical False a v ops"
| "drop_node (Set k a vs ops) = Set False a vs ops"
| "drop_node (Dice k a n s ds ops c) = Dice False a n s ds ops c"
| "drop_node (Die d) = Die (die_drop d)"

text \<open>Literal.__init__(value): values = [value], exploded = False, kept = True.\<close>

definition new_literal :: "pynum \<Rightarrow> literal" where
  "new_literal v = \<lparr>l_kept = True, l_annotation = None, l_values = [v], l_exploded = False\<rparr>"

text \<open>Literal.explode and Literal.update.\<close>

definition lit_explode :: "literal \<Rightarrow> literal" where
  "lit_explode l = l\<lparr>l_exploded := True\<rparr>"

definition lit_update :: "literal \<Rightarrow> pynum \<Rightarrow> literal" where
  "lit_update l v = l\<lparr>l_values := l_values l @ [v]\<rparr>"

section \<open>number and total\<close>

text \<open>Literal.number is values[-1]; an empty list raises IndexError.\<close>

definition lit_number :: "literal \<Rightarrow> error + pynum" where
  "lit_number l = (if l_values l = [] then Inl IndexError else Inr (last (l_values l)))"

definition lit_total :: "literal \<Rightarrow> error + pynum" where
  "lit_total l = (if l_kept l then lit_number l else Inr 0)"

text \<open>Die.number is values[-1].total.\<close>

definition die_number :: "die \<Rightarrow> error + pynum" where
  "die_number d = (if d_values d = [] then Inl IndexError else lit_total (last (d_values d)))"

definition die_total :: "die \<Rightarrow> error + pynum" where
  "die_total d = (if d_kept d then die_number d else Inr 0)"

text \<open>
  Python's sum over a generator: the elements are evaluated from left to right and
  the first exception ends the evaluation.
\<close>

fun sum_results :: "(error + pynum) list \<Rightarrow> error + pynum" where
  "sum_results [] = Inr 0"
| "sum_results (x # xs) =
     (case x of Inl e \<Rightarrow> Inl e
      | Inr v \<Rightarrow> (case sum_results xs of Inl e \<Rightarrow> Inl e | Inr s \<Rightarrow> Inr (v + s)))"

text \<open>UnOp.UNARY_OPS: a dictionary from the operator's name to a function.\<close>

definition UNARY_OPS :: "string \<Rightarrow> (pynum \<Rightarrow> pynum) option" where
  "UNARY_OPS o1 =
     (if o1 = ''-'' then Some (\<lambda>v. - v)
      else if o1 = ''+'' then Some (\<lambda>v. v)
      else None)"

text \<open>
  BinOp.BINARY_OPS on integers. True division, floor division and modulo raise
  ZeroDivisionError on a zero right operand. Otherwise \<open>l / r\<close> is a float, \<open>l // r\<close>
  is the floor of the quotient and \<open>l % r\<close> the remainder with the sign of \<open>r\<close>. The
  comparisons give int(bool), that is 0 or 1.
\<close>

definition py_truediv :: "pynum \<Rightarrow> pynum \<Rightarrow> error + pynum" where
  "py_truediv l r = (if r = 0 then Inl ZeroDivisionError else Inl FloatResult)"

definition py_floordiv :: "pynum \<Rightarrow> pynum \<Rightarrow> error + pynum" where
  "py_floordiv l r = (if r = 0 then Inl ZeroDivisionError else Inr (l div r))"

definition py_mod :: "pynum \<Rightarrow> pynum \<Rightarrow> error + pynum" where
  "py_mod l r = (if r = 0 then Inl ZeroDivisionError else Inr (l mod r))"

definition int_of_bool :: "bool \<Rightarrow> pynum" where
  "int_of_bool b = (if b then 1 else 0)"

definition BINARY_OPS :: "string \<Rightarrow> (pynum \<Rightarrow> pynum \<Rightarrow> error + pynum) option" where
  "BINARY_OPS o2 =
     (if o2 = ''+'' then Some (\<lambda>l r. Inr (l + r))
      else if o2 = ''-'' then Some (\<lambda>l r. Inr (l - r))
      else if o2 = ''*'' then Some (\<lambda>l r. Inr (l * r))
      else if o2 = ''/'' then Some py_truediv
      else if o2 = ''//'' then Some py_floordiv
      else if o2 = ''%'' then Some py_mod
      else if o2 = ''<'' then Some (\<lambda>l r. Inr (int_of_bool (l < r)))
      else if o2 = ''>'' then Some (\<lambda>l r. Inr (int_of_bool (l > r)))
      else if o2 = ''=='' then Some (\<lambda>l r. Inr (int_of_bool (l = r)))
      else if o2 = ''>='' then Some (\<lambda>l r. Inr (int_of_bool (l \<ge> r)))
      else if o2 = ''<='' then Some (\<lambda>l r. Inr (int_of_bool (l \<le> r)))
      else if o2 = ''!='' then Some (\<lambda>l r. Inr (int_of_bool (l \<noteq> r)))
      else None)"

text \<open>
  BinOp.number, given the results of reading left.total and right.total: the dictionary
  lookup comes first, then left.total, then right.total, then the operation, whose
  ZeroDivisionError is turned into RollValueError.
\<close>

definition binop_number :: "string \<Rightarrow> error + pynum \<Rightarrow> error + pynum \<Rightarrow> error + pynum" where
  "binop_number o2 lt rt =
     (case BINARY_OPS o2 of None \<Rightarrow> Inl KeyError
      | Some f \<Rightarrow>
         (case lt of Inl e \<Rightarrow> Inl e
          | Inr l \<Rightarrow>
             (case rt of Inl e \<Rightarrow> Inl e
              | Inr r \<Rightarrow>
                 (case f l r of
                    Inl ZeroDivisionError \<Rightarrow> Inl (RollValueError ''Cannot divide by zero.'')
                  | Inl e \<Rightarrow> Inl e
                  | Inr v \<Rightarrow> Inr v))))"

definition unop_number :: "string \<Rightarrow> error + pynum \<Rightarrow> error + pynum" where
  "unop_number o1 vt =
     (case UNARY_OPS o1 of None \<Rightarrow> Inl KeyError
      | Some f \<Rightarrow> (case vt of Inl e \<Rightarrow> Inl e | Inr v \<Rightarrow> Inr (f v)))"

text \<open>
  number and total of every class. Set and Dice inherit Number.number, the sum of
  n.number over self.keptset; Parenthetical overrides total; all others inherit
  Number.total.
\<close>

fun number :: "node \<Rightarrow> error + pynum" and total :: "node \<Rightarrow> error + pynum" where
  "number (Expression k a r c) = number r"
| "number (Literal l) = lit_number l"
| "number (UnOp k a o1 v) = unop_number o1 (total v)"
| "number (BinOp k a l o2 r) = binop_number o2 (total l) (total r)"
| "number (Parenthetical k a v ops) = number v"
| "number (Set k a vs ops) = sum_results (map number (filter kept vs))"
| "number (Dice k a n s ds ops c) = sum_results (map die_number (filter d_kept ds))"
| "number (Die d) = die_number d"
| "total (Expression k a r c) = (if k then number r else Inr 0)"
| "total (Literal l) = lit_total l"
| "total (UnOp k a o1 v) = (if k then unop_number o1 (total v) else Inr 0)"
| "total (BinOp k a l o2 r) = (if k then binop_number o2 (total l) (total r) else Inr 0)"
| "total (Parenthetical k a v ops) = (if k then total v else Inr 0)"
| "total (Set k a vs ops) = (if k then sum_results (map number (filter kept vs)) else Inr 0)"
| "total (Dice k a n s ds ops c) =
     (if k then sum_results (map die_number (filter d_kept ds)) else Inr 0)"
| "total (Die d) = die_total d"

text \<open>
  The only RollValueError that reading a number or a total can raise is the one of
  BinOp.number; this predicate says that an error, if it is a RollValueError, is that one.
\<close>

definition div_zero_only :: "error \<Rightarrow> bool" where
  "div_zero_only e = (\<forall>m. e = RollValueError m \<longrightarrow> m = ''Cannot divide by zero.'')"

section \<open>set, keptset and children\<close>

text \<open>The set property of every class; Die.set is [values[-1]].\<close>

fun node_set :: "node \<Rightarrow> error + node list" where
  "node_set (Expression k a r c) = node_set r"
| "node_set (Literal l) = Inr [Literal l]"
| "node_set (UnOp k a o1 v) = Inr [UnOp k a o1 v]"
| "node_set (BinOp k a l o2 r) = Inr [BinOp k a l o2 r]"
| "node_set (Parenthetical k a v ops) = node_set v"
| "node_set (Set k a vs ops) = Inr vs"
| "node_set (Dice k a n s ds ops c) = Inr (map Die ds)"
| "node_set (Die d) = (if d_values d = [] then Inl IndexError else Inr [Literal (last (d_values d))])"

text \<open>The children property of every class.\<close>

fun children :: "node \<Rightarrow> node list" where
  "children (Expression k a r c) = [r]"
| "children (Literal l) = []"
| "children (UnOp k a o1 v) = [v]"
| "children (BinOp k a l o2 r) = [l, r]"
| "children (Parenthetical k a v ops) = children v"
| "children (Set k a vs ops) = vs"
| "children (Dice k a n s ds ops c) = []"
| "children (Die d) = []"

section \<open>Canonical text\<close>

text \<open>str of a Python int, in decimal.\<close>

definition digit_char :: "nat \<Rightarrow> char" where
  "digit_char n = ''0123456789'' ! n"

fun str_nat :: "nat \<Rightarrow> string" where
  "str_nat n = (if n < 10 then [digit_char n] else str_nat (n div 10) @ [digit_char (n mod 10)])"

definition str_int :: "int \<Rightarrow> string" where
  "str_int i = (if i < 0 then CHR ''-'' # str_nat (nat (- i)) else str_nat (nat i))"

text \<open>SetSelector.__str__: the test \<open>if self.cat\<close> is false for None and for the empty string.\<close>

definition str_selector :: "SetSelector \<Rightarrow> string" where
  "str_selector s =
     (case cat s of
        Some c \<Rightarrow> (if c \<noteq> [] then c @ str_int (num s) else str_int (num s))
      | None \<Rightarrow> str_int (num s))"

text \<open>SetOperator.__str__: the join of op followed by str(sel), over the selectors.\<close>

definition str_operator :: "SetOperator \<Rightarrow> string" where
  "str_operator so = concat (map (\<lambda>sel. op so @ str_selector sel) (sels so))"

text \<open>
  The text of an operator as the specification words it, for comparison with
  \<open>str_operator\<close>: the op code, followed by each selector's form.
\<close>

definition spec_operator_text :: "SetOperator \<Rightarrow> string" where
  "spec_operator_text so = op so @ concat (map str_selector (sels so))"

section \<open>Rolling\<close>

text \<open>
  Modelled from the spec: the roll-count context (dice.RollContext) is not part of
  models.py. Its one operation, count_roll, counts one roll and fails once the
  configured budget is exceeded. Contexts live in a store indexed by reference, since
  all dice of one evaluation share one context.
\<close>

record RollContext =
  rolls :: nat
  max_rolls :: nat

text \<open>
  The environment of an evaluation: the outcomes that random.randrange will deliver,
  in order; the store of roll-count contexts; and, for every \<open>for\<close> loop over a Python
  set, the order in which that loop will visit the set (Python does not specify it).
\<close>

record env =
  tape :: "nat list"
  contexts :: "nat \<Rightarrow> RollContext"
  set_orders :: "(nat list \<Rightarrow> nat list) list"

definition count_roll :: "nat \<Rightarrow> env \<Rightarrow> error + env" where
  "count_roll c e =
     (let ctx = contexts e c; ctx' = ctx\<lparr>rolls := rolls ctx + 1\<rparr>
      in if rolls ctx' > max_rolls ctx' then Inl TooManyRolls
         else Inr (e\<lparr>contexts := (contexts e)(c := ctx')\<rparr>))"

text \<open>
  random.randrange(n) for n \<ge> 1 returns some element of [0, n): the next outcome of
  the tape, reduced into the range.
\<close>

definition randrange :: "int \<Rightarrow> env \<Rightarrow> error + int \<times> env" where
  "randrange n e =
     (case tape e of [] \<Rightarrow> Inl OutOfRolls
      | r # rs \<Rightarrow> Inr (int (r mod nat n), e\<lparr>tape := rs\<rparr>))"

text \<open>Die._add_roll.\<close>

definition add_roll :: "die \<Rightarrow> env \<Rightarrow> error + die \<times> env" where
  "add_roll d e =
     (if d_size d < 1 then Inl (RollValueError ''Cannot roll a 0-sided die.'')
      else
        (case (case d_context d of None \<Rightarrow> Inr e | Some c \<Rightarrow> count_roll c e) of
           Inl x \<Rightarrow> Inl x
         | Inr e1 \<Rightarrow>
            (case randrange (d_size d) e1 of
               Inl x \<Rightarrow> Inl x
             | Inr (r, e2) \<Rightarrow>
                Inr (d\<lparr>d_values := d_values d @ [new_literal (r + 1)]\<rparr>, e2))))"

text \<open>Die.__init__(size, values, context): kept and without annotation.\<close>

definition die_init :: "int \<Rightarrow> literal list \<Rightarrow> nat option \<Rightarrow> die" where
  "die_init sz vs c = \<lparr>d_kept = True, d_annotation = None, d_size = sz, d_values = vs, d_context = c\<rparr>"

text \<open>Die.new(size, context): a die without values, then one roll.\<close>

definition die_new :: "int \<Rightarrow> nat option \<Rightarrow> env \<Rightarrow> error + die \<times> env" where
  "die_new sz c e =
     add_roll \<lparr>d_kept = True, d_annotation = None, d_size = sz, d_values = [], d_context = c\<rparr> e"

text \<open>Die.reroll, Die.explode, Die.force_value: each tests \<open>if self.values\<close> first.\<close>

definition die_reroll :: "die \<Rightarrow> env \<Rightarrow> error + die \<times> env" where
  "die_reroll d e =
     add_roll (if d_values d \<noteq> []
               then d\<lparr>d_values := butlast (d_values d) @ [lit_drop (last (d_values d))]\<rparr>
               else d) e"

definition die_explode :: "die \<Rightarrow> die" where
  "die_explode d =
     (if d_values d \<noteq> []
      then d\<lparr>d_values := butlast (d_values d) @ [lit_explode (last (d_values d))]\<rparr>
      else d)"

definition die_force_value :: "die \<Rightarrow> pynum \<Rightarrow> die" where
  "die_force_value d v =
     (if d_values d \<noteq> []
      then d\<lparr>d_values := butlast (d_values d) @ [lit_update (last (d_values d)) v]\<rparr>
      else d)"

text \<open>Dice.new(num, size, context): num dice, rolled in order; range(num) is empty for num \<le> 0.\<close>

fun new_dice :: "nat \<Rightarrow> int \<Rightarrow> nat option \<Rightarrow> env \<Rightarrow> error + die list \<times> env" where
  "new_dice 0 sz c e = Inr ([], e)"
| "new_dice (Suc n) sz c e =
     (case die_new sz c e of
        Inl x \<Rightarrow> Inl x
      | Inr (d, e1) \<Rightarrow>
         (case new_dice n sz c e1 of
            Inl x \<Rightarrow> Inl x
          | Inr (ds, e2) \<Rightarrow> Inr (d # ds, e2)))"

definition dice_new :: "int \<Rightarrow> int \<Rightarrow> nat option \<Rightarrow> env \<Rightarrow> error + node \<times> env" where
  "dice_new n sz c e =
     (case new_dice (nat n) sz c e of
        Inl x \<Rightarrow> Inl x
      | Inr (ds, e1) \<Rightarrow> Inr (Dice True None n sz ds [] c, e1))"

text \<open>Dice.roll_another; no other class has this method.\<close>

fun roll_another :: "node \<Rightarrow> env \<Rightarrow> error + node \<times> env" where
  "roll_another (Dice k a n s ds ops c) e =
     (case die_new s c e of
        Inl x \<Rightarrow> Inl x
      | Inr (d, e1) \<Rightarrow> Inr (Dice k a n s (ds @ [d]) ops c, e1))"
| "roll_another t e = Inl AttributeError"

section \<open>Members of a target\<close>

text \<open>
  An operator works on the objects of target.set and mutates them in place. In the
  tree, the object is the member at a position of target.set: \<open>member\<close> reads it and
  \<open>put_member\<close> writes the mutated object back to where it lives.
\<close>

definition member :: "node \<Rightarrow> nat \<Rightarrow> error + node" where
  "member t i =
     (case node_set t of Inl x \<Rightarrow> Inl x
      | Inr ms \<Rightarrow> if i < length ms then Inr (ms ! i) else Inl IndexError)"

fun put_member :: "nat \<Rightarrow> node \<Rightarrow> node \<Rightarrow> node" where
  "put_member i m (Expression k a r c) = Expression k a (put_member i m r) c"
| "put_member i m (Literal l) = (if i = 0 then m else Literal l)"
| "put_member i m (UnOp k a o1 v) = (if i = 0 then m else UnOp k a o1 v)"
| "put_member i m (BinOp k a l o2 r) = (if i = 0 then m else BinOp k a l o2 r)"
| "put_member i m (Parenthetical k a v ops) = Parenthetical k a (put_member i m v) ops"
| "put_member i m (Set k a vs ops) = Set k a (vs[i := m]) ops"
| "put_member i m (Dice k a n s ds ops c) =
     (case m of Die d \<Rightarrow> Dice k a n s (ds[i := d]) ops c | _ \<Rightarrow> Dice k a n s ds ops c)"
| "put_member i m (Die d) =
     (case m of
        Literal l \<Rightarrow>
          (if i = 0 \<and> d_values d \<noteq> [] then Die (d\<lparr>d_values := butlast (d_values d) @ [l]\<rparr>)
           else Die d)
      | _ \<Rightarrow> Die d)"

text \<open>The methods an operator calls on a member; a class without the method raises AttributeError.\<close>

fun reroll_node :: "node \<Rightarrow> env \<Rightarrow> error + node \<times> env" where
  "reroll_node (Die d) e =
     (case die_reroll d e of Inl x \<Rightarrow> Inl x | Inr (d', e') \<Rightarrow> Inr (Die d', e'))"
| "reroll_node m e = Inl AttributeError"

fun explode_node :: "node \<Rightarrow> error + node" where
  "explode_node (Die d) = Inr (Die (die_explode d))"
| "explode_node (Literal l) = Inr (Literal (lit_explode l))"
| "explode_node m = Inl AttributeError"

fun force_value_node :: "node \<Rightarrow> pynum \<Rightarrow> error + node" where
  "force_value_node (Die d) v = Inr (Die (die_force_value d v))"
| "force_value_node m v = Inl AttributeError"

text \<open>target.keptset, as the positions of the kept members of target.set.\<close>

definition keptset :: "node \<Rightarrow> error + nat list" where
  "keptset t =
     (case node_set t of Inl x \<Rightarrow> Inl x
      | Inr ms \<Rightarrow> Inr (filter (\<lambda>i. kept (ms ! i)) [0..<length ms]))"

fun sequence :: "(error + 'a) list \<Rightarrow> error + 'a list" where
  "sequence [] = Inr []"
| "sequence (x # xs) =
     (case x of Inl e \<Rightarrow> Inl e
      | Inr v \<Rightarrow> (case sequence xs of Inl e \<Rightarrow> Inl e | Inr vs \<Rightarrow> Inr (v # vs)))"

text \<open>
  The kept members with their totals, read in order: what every selector computes
  first (the sort key, or the test of the comprehension, for each n in target.keptset).
\<close>

definition kept_totals :: "node \<Rightarrow> error + (nat \<times> pynum) list" where
  "kept_totals t =
     (case node_set t of Inl x \<Rightarrow> Inl x
      | Inr ms \<Rightarrow>
         sequence (map (\<lambda>i. case total (ms ! i) of Inl x \<Rightarrow> Inl x | Inr v \<Rightarrow> Inr (i, v))
                       (filter (\<lambda>i. kept (ms ! i)) [0..<length ms])))"

section \<open>SetSelector\<close>

text \<open>The slice xs[:n] of Python: a negative n counts from the end.\<close>

definition py_slice_to :: "int \<Rightarrow> 'a list \<Rightarrow> 'a list" where
  "py_slice_to n xs = (if n < 0 then take (length xs - nat (- n)) xs else take (nat n) xs)"

text \<open>
  sorted is stable; with reverse=True it sorts in descending order and still keeps
  elements of equal key in their original order.
\<close>

definition lowestn :: "SetSelector \<Rightarrow> node \<Rightarrow> error + nat list" where
  "lowestn s t =
     (case kept_totals t of Inl x \<Rightarrow> Inl x
      | Inr kv \<Rightarrow> Inr (map fst (py_slice_to (num s) (sort_key snd kv))))"

definition highestn :: "SetSelector \<Rightarrow> node \<Rightarrow> error + nat list" where
  "highestn s t =
     (case kept_totals t of Inl x \<Rightarrow> Inl x
      | Inr kv \<Rightarrow> Inr (map fst (py_slice_to (num s) (sort_key (\<lambda>p. - snd p) kv))))"

definition lessthan :: "SetSelector \<Rightarrow> node \<Rightarrow> error + nat list" where
  "lessthan s t =
     (case kept_totals t of Inl x \<Rightarrow> Inl x
      | Inr kv \<Rightarrow> Inr (map fst (filter (\<lambda>p. snd p < num s) kv)))"

definition morethan :: "SetSelector \<Rightarrow> node \<Rightarrow> error + nat list" where
  "morethan s t =
     (case kept_totals t of Inl x \<Rightarrow> Inl x
      | Inr kv \<Rightarrow> Inr (map fst (filter (\<lambda>p. snd p > num s) kv)))"

definition literal_sel :: "SetSelector \<Rightarrow> node \<Rightarrow> error + nat list" where
  "literal_sel s t =
     (case kept_totals t of Inl x \<Rightarrow> Inl x
      | Inr kv \<Rightarrow> Inr (map fst (filter (\<lambda>p. snd p = num s) kv)))"

text \<open>SetSelector.select: the dictionary lookup on cat, then the call.\<close>

definition selector_select :: "SetSelector \<Rightarrow> node \<Rightarrow> error + nat list" where
  "selector_select s t =
     (if cat s = Some ''l'' then lowestn s t
      else if cat s = Some ''h'' then highestn s t
      else if cat s = Some ''<'' then lessthan s t
      else if cat s = Some ''>'' then morethan s t
      else if cat s = None then literal_sel s t
      else Inl KeyError)"


section \<open>SetOperator\<close>

text \<open>
  SetOperator.select: the set collected from every selector in turn. A Python set of
  member objects is represented by the ascending list of their positions.
\<close>

fun select_all :: "SetSelector list \<Rightarrow> node \<Rightarrow> error + nat list" where
  "select_all [] t = Inr []"
| "select_all (s # ss) t =
     (case selector_select s t of
        Inl x \<Rightarrow> Inl x
      | Inr xs \<Rightarrow> (case select_all ss t of Inl x \<Rightarrow> Inl x | Inr ys \<Rightarrow> Inr (xs @ ys)))"

definition setop_select :: "SetOperator \<Rightarrow> node \<Rightarrow> error + nat list" where
  "setop_select so t =
     (case select_all (sels so) t of Inl x \<Rightarrow> Inl x | Inr xs \<Rightarrow> Inr (sort (remdups xs)))"

text \<open>
  A \<open>for\<close> loop over a set visits every element once, in an order the program does
  not control. \<open>visit xs e\<close> is the order of the next loop: the environment's next
  rearrangement applied to the elements (the ascending order when the supply is used
  up, or when what it supplies is not a rearrangement of the elements), and
  \<open>visited e\<close> is the environment after that loop has taken its order.
\<close>

definition visit :: "nat list \<Rightarrow> env \<Rightarrow> nat list" where
  "visit xs e =
     (case set_orders e of [] \<Rightarrow> xs
      | f # fs \<Rightarrow> if sort (f xs) = xs then f xs else xs)"

definition visited :: "env \<Rightarrow> env" where
  "visited e = e\<lparr>set_orders := tl (set_orders e)\<rparr>"

definition drop_member :: "nat \<Rightarrow> node \<Rightarrow> error + node" where
  "drop_member i t =
     (case member t i of Inl x \<Rightarrow> Inl x | Inr m \<Rightarrow> Inr (put_member i (drop_node m) t))"

text \<open>
  SetOperator.keep: the loop runs over target.keptset as it was at the start, and
  evaluates self.select(target) anew for every value.
\<close>

fun keep_loop :: "SetOperator \<Rightarrow> nat list \<Rightarrow> node \<Rightarrow> error + node" where
  "keep_loop so [] t = Inr t"
| "keep_loop so (i # is) t =
     (case setop_select so t of
        Inl x \<Rightarrow> Inl x
      | Inr sel \<Rightarrow>
         (if i \<notin> set sel
          then (case drop_member i t of Inl x \<Rightarrow> Inl x | Inr t' \<Rightarrow> keep_loop so is t')
          else keep_loop so is t))"

definition keep :: "SetOperator \<Rightarrow> node \<Rightarrow> error + node" where
  "keep so t = (case keptset t of Inl x \<Rightarrow> Inl x | Inr ks \<Rightarrow> keep_loop so ks t)"

text \<open>SetOperator.drop.\<close>

fun drop_each :: "nat list \<Rightarrow> node \<Rightarrow> error + node" where
  "drop_each [] t = Inr t"
| "drop_each (i # is) t =
     (case drop_member i t of Inl x \<Rightarrow> Inl x | Inr t' \<Rightarrow> drop_each is t')"

definition setop_drop :: "SetOperator \<Rightarrow> node \<Rightarrow> env \<Rightarrow> error + node \<times> env" where
  "setop_drop so t e =
     (case setop_select so t of
        Inl x \<Rightarrow> Inl x
      | Inr sel \<Rightarrow>
         (case drop_each (visit sel e) t of Inl x \<Rightarrow> Inl x | Inr t' \<Rightarrow> Inr (t', visited e)))"

text \<open>The body \<open>for die in to_reroll: die.reroll()\<close>.\<close>

fun reroll_each :: "nat list \<Rightarrow> node \<Rightarrow> env \<Rightarrow> error + node \<times> env" where
  "reroll_each [] t e = Inr (t, e)"
| "reroll_each (i # is) t e =
     (case member t i of
        Inl x \<Rightarrow> Inl x
      | Inr m \<Rightarrow>
         (case reroll_node m e of
            Inl x \<Rightarrow> Inl x
          | Inr (m', e') \<Rightarrow> reroll_each is (put_member i m' t) e'))"

text \<open>SetOperator.reroll_once.\<close>

definition reroll_once :: "SetOperator \<Rightarrow> node \<Rightarrow> env \<Rightarrow> error + node \<times> env" where
  "reroll_once so t e =
     (case setop_select so t of
        Inl x \<Rightarrow> Inl x
      | Inr sel \<Rightarrow> reroll_each (visit sel e) t (visited e))"

text \<open>The body \<open>for die in to_explode: die.explode(); target.roll_another()\<close>.\<close>

fun explode_each :: "nat list \<Rightarrow> node \<Rightarrow> env \<Rightarrow> error + node \<times> env" where
  "explode_each [] t e = Inr (t, e)"
| "explode_each (i # is) t e =
     (case member t i of
        Inl x \<Rightarrow> Inl x
      | Inr m \<Rightarrow>
         (case explode_node m of
            Inl x \<Rightarrow> Inl x
          | Inr m' \<Rightarrow>
             (case roll_another (put_member i m' t) e of
                Inl x \<Rightarrow> Inl x
              | Inr (t', e') \<Rightarrow> explode_each is t' e')))"

text \<open>SetOperator.explode_once.\<close>

definition explode_once :: "SetOperator \<Rightarrow> node \<Rightarrow> env \<Rightarrow> error + node \<times> env" where
  "explode_once so t e =
     (case setop_select so t of
        Inl x \<Rightarrow> Inl x
      | Inr sel \<Rightarrow> explode_each (visit sel e) t (visited e))"

section \<open>The reroll and explode loops\<close>

text \<open>
  A loop visits as many members as the set has, and leaves the tape alone. Every roll
  takes one outcome from the tape, so a pass over a non-empty selection that returns
  has shortened the tape: this is what makes the two loops below terminate in the
  model. (In the program the loops end only if the dice do.)
\<close>

lemma length_visit: "length (visit xs e) = length xs"
  by (auto simp: visit_def split: list.splits dest: arg_cong [where f = length])

lemma set_visit: "set (visit xs e) = set xs"
  by (auto simp: visit_def split: list.splits dest: arg_cong [where f = set])

lemma distinct_visit: "distinct xs \<Longrightarrow> distinct (visit xs e)"
  by (auto simp: visit_def split: list.splits dest: arg_cong [where f = distinct])

lemma tape_visited: "tape (visited e) = tape e"
  by (simp add: visited_def)

lemma contexts_visited: "contexts (visited e) = contexts e"
  by (simp add: visited_def)

lemma add_roll_tape: "add_roll d e = Inr (d', e') \<Longrightarrow> Suc (length (tape e')) = length (tape e)"
  by (auto simp: add_roll_def randrange_def count_roll_def Let_def split: if_splits sum.splits option.splits list.splits)

lemma reroll_node_tape: "reroll_node m e = Inr (m', e') \<Longrightarrow> Suc (length (tape e')) = length (tape e)"
  by (cases m) (auto simp: die_reroll_def dest: add_roll_tape split: sum.splits)

lemma reroll_each_tape:
  "reroll_each is t e = Inr (t', e') \<Longrightarrow> length (tape e') + length is = length (tape e)"
proof (induction "is" arbitrary: t e)
  case Nil
  then show ?case by simp
next
  case (Cons i "is")
  then show ?case
    by (fastforce split: sum.splits dest: reroll_node_tape)
qed

lemma roll_another_tape: "roll_another t e = Inr (t', e') \<Longrightarrow> Suc (length (tape e')) = length (tape e)"
  by (cases t) (auto simp: die_new_def dest: add_roll_tape split: sum.splits)

lemma explode_each_tape:
  "explode_each is t e = Inr (t', e') \<Longrightarrow> length (tape e') + length is = length (tape e)"
proof (induction "is" arbitrary: t e)
  case Nil
  then show ?case by simp
next
  case (Cons i "is")
  then show ?case
    by (fastforce split: sum.splits dest: roll_another_tape)
qed

text \<open>
  SetOperator.reroll: \<open>to_reroll = self.select(target)\<close>, then the while loop, whose
  state is to_reroll and the target.
\<close>

function reroll_while :: "SetOperator \<Rightarrow> nat list \<Rightarrow> node \<Rightarrow> env \<Rightarrow> error + node \<times> env" where
  "reroll_while so to_reroll t e =
     (if to_reroll = [] then Inr (t, e)
      else
        (case reroll_each (visit to_reroll e) t (visited e) of
           Inl x \<Rightarrow> Inl x
         | Inr (t', e') \<Rightarrow>
            (case setop_select so t' of
               Inl x \<Rightarrow> Inl x
             | Inr sel \<Rightarrow> reroll_while so sel t' e')))"
  by pat_completeness auto
termination
proof (relation "measure (\<lambda>(so, to_reroll, t, e). length (tape e))")
  show "wf (measure (\<lambda>(so, to_reroll, t, e). length (tape e)))" by simp
next
  fix so :: SetOperator and to_reroll t e x2 x y x2a
  assume "to_reroll \<noteq> []" "reroll_each (visit to_reroll e) t (visited e) = Inr x2" "(x, y) = x2"
  then have "length (tape y) + length to_reroll = length (tape e)"
    using reroll_each_tape [of "visit to_reroll e" t "visited e" x y]
    by (simp add: length_visit tape_visited)
  with \<open>to_reroll \<noteq> []\<close> show "((so, x2a, x, y), (so, to_reroll, t, e)) \<in> measure (\<lambda>(so, to_reroll, t, e). length (tape e))"
    by (cases to_reroll) auto
qed

definition reroll :: "SetOperator \<Rightarrow> node \<Rightarrow> env \<Rightarrow> error + node \<times> env" where
  "reroll so t e =
     (case setop_select so t of Inl x \<Rightarrow> Inl x | Inr sel \<Rightarrow> reroll_while so sel t e)"

text \<open>
  SetOperator.explode: the while loop with to_explode and already_exploded;
  \<open>already_exploded.update(to_explode)\<close>, then the new selection without them.
\<close>

function explode_while :: "SetOperator \<Rightarrow> nat list \<Rightarrow> nat list \<Rightarrow> node \<Rightarrow> env \<Rightarrow> error + node \<times> env" where
  "explode_while so to_explode already_exploded t e =
     (if to_explode = [] then Inr (t, e)
      else
        (case explode_each (visit to_explode e) t (visited e) of
           Inl x \<Rightarrow> Inl x
         | Inr (t', e') \<Rightarrow>
            (case setop_select so t' of
               Inl x \<Rightarrow> Inl x
             | Inr sel \<Rightarrow>
                explode_while so
                  (filter (\<lambda>i. i \<notin> set (already_exploded @ to_explode)) sel)
                  (already_exploded @ to_explode) t' e')))"
  by pat_completeness auto
termination
proof (relation "measure (\<lambda>(so, to_explode, already, t, e). length (tape e))")
  show "wf (measure (\<lambda>(so, to_explode, already, t, e). length (tape e)))" by simp
next
  fix so :: SetOperator and to_explode already_exploded t e x2 x y x2a
  assume "to_explode \<noteq> []" "explode_each (visit to_explode e) t (visited e) = Inr x2" "(x, y) = x2"
  then have "length (tape y) + length to_explode = length (tape e)"
    using explode_each_tape [of "visit to_explode e" t "visited e" x y]
    by (simp add: length_visit tape_visited)
  with \<open>to_explode \<noteq> []\<close>
  show "((so, filter (\<lambda>i. i \<notin> set (already_exploded @ to_explode)) x2a, already_exploded @ to_explode, x, y),
         (so, to_explode, already_exploded, t, e)) \<in> measure (\<lambda>(so, to_explode, already, t, e). length (tape e))"
    by (cases to_explode) auto
qed

definition explode :: "SetOperator \<Rightarrow> node \<Rightarrow> env \<Rightarrow> error + node \<times> env" where
  "explode so t e =
     (case setop_select so t of Inl x \<Rightarrow> Inl x | Inr sel \<Rightarrow> explode_while so sel [] t e)"

section \<open>minimum, maximum and operate\<close>

text \<open>The loop of minimum over target.keptset: \<open>if die.number < the_min: die.force_value(the_min)\<close>.\<close>

fun minimum_each :: "int \<Rightarrow> nat list \<Rightarrow> node \<Rightarrow> error + node" where
  "minimum_each the_min [] t = Inr t"
| "minimum_each the_min (i # is) t =
     (case member t i of
        Inl x \<Rightarrow> Inl x
      | Inr m \<Rightarrow>
         (case number m of
            Inl x \<Rightarrow> Inl x
          | Inr v \<Rightarrow>
             (if v < the_min
              then (case force_value_node m the_min of
                      Inl x \<Rightarrow> Inl x
                    | Inr m' \<Rightarrow> minimum_each the_min is (put_member i m' t))
              else minimum_each the_min is t)))"

fun maximum_each :: "int \<Rightarrow> nat list \<Rightarrow> node \<Rightarrow> error + node" where
  "maximum_each the_max [] t = Inr t"
| "maximum_each the_max (i # is) t =
     (case member t i of
        Inl x \<Rightarrow> Inl x
      | Inr m \<Rightarrow>
         (case number m of
            Inl x \<Rightarrow> Inl x
          | Inr v \<Rightarrow>
             (if v > the_max
              then (case force_value_node m the_max of
                      Inl x \<Rightarrow> Inl x
                    | Inr m' \<Rightarrow> maximum_each the_max is (put_member i m' t))
              else maximum_each the_max is t)))"

text \<open>
  SetOperator.minimum and maximum: self.sels[-1] (IndexError on an empty list), the
  test \<open>selector.cat is not None\<close>, then the loop.
\<close>

definition minimum :: "SetOperator \<Rightarrow> node \<Rightarrow> error + node" where
  "minimum so t =
     (if sels so = [] then Inl IndexError
      else
        (let selector = last (sels so)
         in if cat selector \<noteq> None
            then Inl (RollValueError (str_selector selector @ '' is not a valid selector for minimums.''))
            else (case keptset t of
                    Inl x \<Rightarrow> Inl x
                  | Inr ks \<Rightarrow> minimum_each (num selector) ks t)))"

definition maximum :: "SetOperator \<Rightarrow> node \<Rightarrow> error + node" where
  "maximum so t =
     (if sels so = [] then Inl IndexError
      else
        (let selector = last (sels so)
         in if cat selector \<noteq> None
            then Inl (RollValueError (str_selector selector @ '' is not a valid selector for maximums.''))
            else (case keptset t of
                    Inl x \<Rightarrow> Inl x
                  | Inr ks \<Rightarrow> maximum_each (num selector) ks t)))"

text \<open>SetOperator.operate: the dictionary of the eight operations, indexed by self.op.\<close>

definition with_env :: "env \<Rightarrow> error + node \<Rightarrow> error + node \<times> env" where
  "with_env e r = (case r of Inl x \<Rightarrow> Inl x | Inr t \<Rightarrow> Inr (t, e))"

definition operate :: "SetOperator \<Rightarrow> node \<Rightarrow> env \<Rightarrow> error + node \<times> env" where
  "operate so t e =
     (if op so = ''k'' then with_env e (keep so t)
      else if op so = ''p'' then setop_drop so t e
      else if op so = ''rr'' then reroll so t e
      else if op so = ''ro'' then reroll_once so t e
      else if op so = ''ra'' then explode_once so t e
      else if op so = ''e'' then explode so t e
      else if op so = ''mi'' then with_env e (minimum so t)
      else if op so = ''ma'' then with_env e (maximum so t)
      else Inl KeyError)"

section \<open>Arithmetic nodes\<close>







section \<open>Rolling a die\<close>

lemma add_roll_eq:
  "add_roll d e =
     (if d_size d < 1 then Inl (RollValueError ''Cannot roll a 0-sided die.'')
      else case d_context d of
        None \<Rightarrow> (case tape e of [] \<Rightarrow> Inl OutOfRolls
           | r # rs \<Rightarrow> Inr (d\<lparr>d_values := d_values d @ [new_literal (int (r mod nat (d_size d)) + 1)]\<rparr>,
                          e\<lparr>tape := rs\<rparr>))
      | Some c \<Rightarrow>
          (if max_rolls (contexts e c) < rolls (contexts e c) + 1 then Inl TooManyRolls
           else case tape e of [] \<Rightarrow> Inl OutOfRolls
           | r # rs \<Rightarrow> Inr (d\<lparr>d_values := d_values d @ [new_literal (int (r mod nat (d_size d)) + 1)]\<rparr>,
                          e\<lparr>contexts := (contexts e)(c := (contexts e c)\<lparr>rolls := rolls (contexts e c) + 1\<rparr>),
                            tape := rs\<rparr>)))"
  by (simp add: add_roll_def randrange_def count_roll_def Let_def split: option.split list.split)

lemma randrange_range:
  "1 \<le> s \<Longrightarrow> 1 \<le> int (r mod nat s) + 1 \<and> int (r mod nat s) + 1 \<le> s"
proof -
  assume s: "1 \<le> s"
  then have "r mod nat s < nat s" by simp
  then have "int (r mod nat s) < s" using s by linarith
  then show ?thesis by simp
qed

text \<open>The environment after a roll that took the outcome at the head of the tape.\<close>

definition rolled_env :: "die \<Rightarrow> env \<Rightarrow> env" where
  "rolled_env d e =
     (case d_context d of
        None \<Rightarrow> e\<lparr>tape := tl (tape e)\<rparr>
      | Some c \<Rightarrow> e\<lparr>contexts := (contexts e)(c := (contexts e c)\<lparr>rolls := rolls (contexts e c) + 1\<rparr>),
                  tape := tl (tape e)\<rparr>)"

lemma add_roll_Cons:
  assumes "1 \<le> d_size d" and "tape e = r # rs"
    and "\<forall>c. d_context d = Some c \<longrightarrow> rolls (contexts e c) < max_rolls (contexts e c)"
  shows "add_roll d e =
     Inr (d\<lparr>d_values := d_values d @ [new_literal (int (r mod nat (d_size d)) + 1)]\<rparr>, rolled_env d e)"
proof (cases "d_context d")
  case None
  with assms show ?thesis by (simp add: add_roll_eq rolled_env_def)
next
  case (Some c)
  with assms have "\<not> max_rolls (contexts e c) < rolls (contexts e c) + 1" by auto
  with assms Some show ?thesis by (simp add: add_roll_eq rolled_env_def)
qed

lemma add_roll_Inr:
  assumes "add_roll d e = Inr (d', e')"
  shows "1 \<le> d_size d \<and> tape e \<noteq> []
    \<and> (\<forall>c. d_context d = Some c \<longrightarrow> rolls (contexts e c) < max_rolls (contexts e c))
    \<and> d' = d\<lparr>d_values := d_values d @ [new_literal (int (hd (tape e) mod nat (d_size d)) + 1)]\<rparr>
    \<and> e' = rolled_env d e"
proof -
  from assms have s: "1 \<le> d_size d"
    by (simp add: add_roll_eq split: if_splits)
  from assms s have t: "tape e \<noteq> []"
    by (auto simp: add_roll_eq split: option.splits if_splits)
  from assms s have c: "\<forall>c. d_context d = Some c \<longrightarrow> rolls (contexts e c) < max_rolls (contexts e c)"
    by (auto simp: add_roll_eq split: if_splits)
  from t obtain r rs where r: "tape e = r # rs" by (cases "tape e") auto
  from add_roll_Cons [OF s r c] assms r s t c show ?thesis by simp
qed

lemma die_number_rolled:
  "die_number (d\<lparr>d_values := d_values d @ [new_literal v]\<rparr>) = Inr v"
  by (simp add: die_number_def lit_total_def lit_number_def new_literal_def)

text \<open>
  C3. Die._add_roll fails with the RollValueError "Cannot roll a 0-sided die." when
  size < 1, and with the context's error, before any outcome is drawn, when the
  attached context is at its budget. Otherwise it takes the next outcome r of
  random.randrange(size) and returns: exactly one Literal has been appended to the
  die's values, kept, not exploded, holding the single value (r mod size) + 1, which
  lies in [1, size] and is now the die's number; nothing else of the die has changed;
  the attached context (if any) has counted one roll. Whenever it returns, this is what
  has happened, for a die with a context as for one without. Uniformity: of the size
  outcomes 0, ..., size - 1 of random.randrange(size), which are equally likely, exactly
  one gives each value of [1, size].
\<close>

theorem C3_add_roll:
  "(d_size d < 1 \<longrightarrow> add_roll d e = Inl (RollValueError ''Cannot roll a 0-sided die.''))
   \<and> (1 \<le> d_size d \<and> d_context d = Some c \<and> max_rolls (contexts e c) \<le> rolls (contexts e c)
        \<longrightarrow> add_roll d e = Inl TooManyRolls)
   \<and> (1 \<le> d_size d \<and> tape e = r # rs
        \<and> (\<forall>c. d_context d = Some c \<longrightarrow> rolls (contexts e c) < max_rolls (contexts e c))
        \<longrightarrow> add_roll d e =
             Inr (d\<lparr>d_values := d_values d @
                      [\<lparr>l_kept = True, l_annotation = None,
                        l_values = [int (r mod nat (d_size d)) + 1], l_exploded = False\<rparr>]\<rparr>,
                  case d_context d of
                    None \<Rightarrow> e\<lparr>tape := rs\<rparr>
                  | Some c \<Rightarrow>
                      e\<lparr>contexts := (contexts e)(c := (contexts e c)\<lparr>rolls := rolls (contexts e c) + 1\<rparr>),
                        tape := rs\<rparr>))
   \<and> (add_roll d e = Inr (d', e') \<longrightarrow>
        (\<exists>r' rs' v. tape e = r' # rs' \<and> tape e' = rs'
           \<and> v = int (r' mod nat (d_size d)) + 1 \<and> 1 \<le> v \<and> v \<le> d_size d
           \<and> d' = d\<lparr>d_values := d_values d @
                      [\<lparr>l_kept = True, l_annotation = None, l_values = [v], l_exploded = False\<rparr>]\<rparr>
           \<and> die_number d' = Inr v
           \<and> set_orders e' = set_orders e
           \<and> contexts e' = (case d_context d of None \<Rightarrow> contexts e
               | Some c \<Rightarrow> (contexts e)(c := (contexts e c)\<lparr>rolls := rolls (contexts e c) + 1\<rparr>))))
   \<and> (1 \<le> w \<and> w \<le> d_size d
        \<and> (\<forall>c. d_context d = Some c \<longrightarrow> rolls (contexts e c) < max_rolls (contexts e c))
        \<longrightarrow> (\<exists>!q. q < nat (d_size d)
               \<and> (\<exists>d1 e1. add_roll d (e\<lparr>tape := q # rs\<rparr>) = Inr (d1, e1) \<and> die_number d1 = Inr w)))"
proof (intro conjI impI)
  assume "d_size d < 1"
  then show "add_roll d e = Inl (RollValueError ''Cannot roll a 0-sided die.'')"
    by (simp add: add_roll_eq)
next
  assume "1 \<le> d_size d \<and> d_context d = Some c \<and> max_rolls (contexts e c) \<le> rolls (contexts e c)"
  then show "add_roll d e = Inl TooManyRolls"
    by (simp add: add_roll_eq)
next
  assume a: "1 \<le> d_size d \<and> tape e = r # rs
        \<and> (\<forall>c. d_context d = Some c \<longrightarrow> rolls (contexts e c) < max_rolls (contexts e c))"
  then have "add_roll d e =
     Inr (d\<lparr>d_values := d_values d @ [new_literal (int (r mod nat (d_size d)) + 1)]\<rparr>, rolled_env d e)"
    using add_roll_Cons [of d e r rs] by blast
  with a show "add_roll d e =
             Inr (d\<lparr>d_values := d_values d @
                      [\<lparr>l_kept = True, l_annotation = None,
                        l_values = [int (r mod nat (d_size d)) + 1], l_exploded = False\<rparr>]\<rparr>,
                  case d_context d of
                    None \<Rightarrow> e\<lparr>tape := rs\<rparr>
                  | Some c \<Rightarrow>
                      e\<lparr>contexts := (contexts e)(c := (contexts e c)\<lparr>rolls := rolls (contexts e c) + 1\<rparr>),
                        tape := rs\<rparr>)"
    by (simp add: rolled_env_def new_literal_def split: option.split)
next
  assume a: "add_roll d e = Inr (d', e')"
  from add_roll_Inr [OF a]
  have s: "1 \<le> d_size d" and t: "tape e \<noteq> []"
    and d': "d' = d\<lparr>d_values := d_values d @ [new_literal (int (hd (tape e) mod nat (d_size d)) + 1)]\<rparr>"
    and e': "e' = rolled_env d e"
    by blast+
  from t obtain r' rs' where r: "tape e = r' # rs'" by (cases "tape e") auto
  let ?v = "int (r' mod nat (d_size d)) + 1"
  have 1: "tape e' = rs'" using e' r by (simp add: rolled_env_def split: option.split)
  have 2: "1 \<le> ?v \<and> ?v \<le> d_size d" using randrange_range [OF s, of r'] .
  have 3: "d' = d\<lparr>d_values := d_values d @
                      [\<lparr>l_kept = True, l_annotation = None, l_values = [?v], l_exploded = False\<rparr>]\<rparr>"
    using d' r by (simp add: new_literal_def)
  have 4: "die_number d' = Inr ?v" using d' r by (simp add: die_number_rolled)
  have 5: "set_orders e' = set_orders e" using e' by (simp add: rolled_env_def split: option.split)
  have 6: "contexts e' = (case d_context d of None \<Rightarrow> contexts e
               | Some c \<Rightarrow> (contexts e)(c := (contexts e c)\<lparr>rolls := rolls (contexts e c) + 1\<rparr>))"
    using e' by (simp add: rolled_env_def split: option.split)
  from r 1 2 3 4 5 6
  show "\<exists>r' rs' v. tape e = r' # rs' \<and> tape e' = rs'
           \<and> v = int (r' mod nat (d_size d)) + 1 \<and> 1 \<le> v \<and> v \<le> d_size d
           \<and> d' = d\<lparr>d_values := d_values d @
                      [\<lparr>l_kept = True, l_annotation = None, l_values = [v], l_exploded = False\<rparr>]\<rparr>
           \<and> die_number d' = Inr v
           \<and> set_orders e' = set_orders e
           \<and> contexts e' = (case d_context d of None \<Rightarrow> contexts e
               | Some c \<Rightarrow> (contexts e)(c := (contexts e c)\<lparr>rolls := rolls (contexts e c) + 1\<rparr>))"
    by blast
next
  assume a: "1 \<le> w \<and> w \<le> d_size d
        \<and> (\<forall>c. d_context d = Some c \<longrightarrow> rolls (contexts e c) < max_rolls (contexts e c))"
  then have s: "1 \<le> d_size d" by linarith
  have k: "\<And>q. add_roll d (e\<lparr>tape := q # rs\<rparr>) =
     Inr (d\<lparr>d_values := d_values d @ [new_literal (int (q mod nat (d_size d)) + 1)]\<rparr>,
          rolled_env d (e\<lparr>tape := q # rs\<rparr>))"
    using a s by (intro add_roll_Cons) simp_all
  have u: "\<And>q. (\<exists>d1 e1. add_roll d (e\<lparr>tape := q # rs\<rparr>) = Inr (d1, e1) \<and> die_number d1 = Inr w)
      \<longleftrightarrow> int (q mod nat (d_size d)) + 1 = w"
    by (simp add: k die_number_rolled)
  show "\<exists>!q. q < nat (d_size d)
               \<and> (\<exists>d1 e1. add_roll d (e\<lparr>tape := q # rs\<rparr>) = Inr (d1, e1) \<and> die_number d1 = Inr w)"
    unfolding u
  proof (rule ex1I [of _ "nat (w - 1)"])
    show "nat (w - 1) < nat (d_size d) \<and> int (nat (w - 1) mod nat (d_size d)) + 1 = w"
      using a by simp
  next
    fix q
    assume "q < nat (d_size d) \<and> int (q mod nat (d_size d)) + 1 = w"
    then show "q = nat (w - 1)" by auto
  qed
qed

theorem C3_add_roll_witness:
  "add_roll \<lparr>d_kept = True, d_annotation = None, d_size = 0, d_values = [], d_context = None\<rparr>
      \<lparr>tape = [7], contexts = (\<lambda>c. \<lparr>rolls = 0, max_rolls = 1000\<rparr>), set_orders = []\<rparr>
     = Inl (RollValueError ''Cannot roll a 0-sided die.'')
   \<and> add_roll \<lparr>d_kept = True, d_annotation = None, d_size = 20, d_values = [], d_context = Some 0\<rparr>
      \<lparr>tape = [7], contexts = (\<lambda>c. \<lparr>rolls = 1000, max_rolls = 1000\<rparr>), set_orders = []\<rparr>
     = Inl TooManyRolls
   \<and> add_roll \<lparr>d_kept = True, d_annotation = None, d_size = 20, d_values = [], d_context = Some 0\<rparr>
      \<lparr>tape = [27, 3], contexts = (\<lambda>c. \<lparr>rolls = 0, max_rolls = 1000\<rparr>), set_orders = []\<rparr>
     = Inr (\<lparr>d_kept = True, d_annotation = None, d_size = 20,
             d_values = [\<lparr>l_kept = True, l_annotation = None, l_values = [8], l_exploded = False\<rparr>],
             d_context = Some 0\<rparr>,
            \<lparr>tape = [3],
             contexts = (\<lambda>c. \<lparr>rolls = 0, max_rolls = 1000\<rparr>)(0 := \<lparr>rolls = 1, max_rolls = 1000\<rparr>),
             set_orders = []\<rparr>)
   \<and> (\<exists>!q. q < 6 \<and> (\<exists>d1 e1.
        add_roll \<lparr>d_kept = True, d_annotation = None, d_size = 6, d_values = [], d_context = None\<rparr>
          \<lparr>tape = [q], contexts = (\<lambda>c. \<lparr>rolls = 0, max_rolls = 1000\<rparr>), set_orders = []\<rparr>
          = Inr (d1, e1) \<and> die_number d1 = Inr 4))"
proof -
  let ?e = "\<lparr>tape = [7], contexts = (\<lambda>c. \<lparr>rolls = 0, max_rolls = 1000\<rparr>), set_orders = []\<rparr>"
  let ?f = "\<lparr>tape = [7], contexts = (\<lambda>c. \<lparr>rolls = 1000, max_rolls = 1000\<rparr>), set_orders = []\<rparr>"
  let ?g = "\<lparr>tape = [27, 3], contexts = (\<lambda>c. \<lparr>rolls = 0, max_rolls = 1000\<rparr>), set_orders = []\<rparr>"
  let ?d0 = "\<lparr>d_kept = True, d_annotation = None, d_size = 0, d_values = [], d_context = None\<rparr>"
  let ?d6 = "\<lparr>d_kept = True, d_annotation = None, d_size = 6, d_values = [], d_context = None\<rparr>"
  let ?d20 = "\<lparr>d_kept = True, d_annotation = None, d_size = 20, d_values = [], d_context = Some 0\<rparr>"
  have a: "add_roll ?d0 ?e = Inl (RollValueError ''Cannot roll a 0-sided die.'')"
    using C3_add_roll [THEN conjunct1, of ?d0 ?e] by simp
  have b: "add_roll ?d20 ?f = Inl TooManyRolls"
    using C3_add_roll [THEN conjunct2, THEN conjunct1, of ?d20 0 ?f] by simp
  have c: "add_roll ?d20 ?g
     = Inr (\<lparr>d_kept = True, d_annotation = None, d_size = 20,
             d_values = [\<lparr>l_kept = True, l_annotation = None, l_values = [8], l_exploded = False\<rparr>],
             d_context = Some 0\<rparr>,
            \<lparr>tape = [3],
             contexts = (\<lambda>c. \<lparr>rolls = 0, max_rolls = 1000\<rparr>)(0 := \<lparr>rolls = 1, max_rolls = 1000\<rparr>),
             set_orders = []\<rparr>)"
    using C3_add_roll [THEN conjunct2, THEN conjunct2, THEN conjunct1, of ?d20 ?g 27 "[3]"] by simp
  have d: "\<exists>!q. q < 6 \<and> (\<exists>d1 e1. add_roll ?d6
          \<lparr>tape = [q], contexts = (\<lambda>c. \<lparr>rolls = 0, max_rolls = 1000\<rparr>), set_orders = []\<rparr>
          = Inr (d1, e1) \<and> die_number d1 = Inr 4)"
    using C3_add_roll [THEN conjunct2, THEN conjunct2, THEN conjunct2, THEN conjunct2, of 4 ?d6 ?e "[]"]
    by simp
  from a b c d show ?thesis by simp
qed

section \<open>Canonical text\<close>

text \<open>
  C9, as amended. The text of a selector is its category code (if any) followed by
  its number. The text of an operator is the concatenation, over its selectors in
  order, of the op code followed by the selector's text: empty without selectors, the
  op code and the selector's text for one selector. High-2 renders as "h2",
  equality-6 as "6" and (keep, [highest-2]) as "kh2".
\<close>

theorem C9_canonical_text:
  "(cat s = Some c \<and> c \<noteq> [] \<longrightarrow> str_selector s = c @ str_int (num s))
   \<and> (cat s = None \<longrightarrow> str_selector s = str_int (num s))
   \<and> str_operator \<lparr>op = o1, sels = []\<rparr> = []
   \<and> str_operator \<lparr>op = o1, sels = s # ss\<rparr>
        = o1 @ str_selector s @ str_operator \<lparr>op = o1, sels = ss\<rparr>
   \<and> str_operator \<lparr>op = o1, sels = [s]\<rparr> = o1 @ str_selector s
   \<and> str_selector \<lparr>cat = Some ''h'', num = 2\<rparr> = ''h2''
   \<and> str_selector \<lparr>cat = None, num = 6\<rparr> = ''6''
   \<and> str_operator \<lparr>op = ''k'', sels = [\<lparr>cat = Some ''h'', num = 2\<rparr>]\<rparr> = ''kh2''"
  by (simp add: str_operator_def str_selector_def str_int_def digit_char_def)

theorem C9_canonical_text_witness:
  "str_selector \<lparr>cat = Some ''l'', num = 12\<rparr> = ''l'' @ str_int 12
   \<and> str_selector \<lparr>cat = None, num = 12\<rparr> = str_int 12"
  using C9_canonical_text [of "\<lparr>cat = Some ''l'', num = 12\<rparr>" "''l''"]
    C9_canonical_text [of "\<lparr>cat = None, num = 12\<rparr>"]
  by simp

text \<open>
  C9 as stated (the op code once, followed by each selector's form) fails for an
  operator with two selectors, where the op code is repeated, and for one with none.
\<close>

theorem C9_operator_text_counterexample:
  "str_operator \<lparr>op = ''k'', sels = [\<lparr>cat = Some ''h'', num = 2\<rparr>, \<lparr>cat = Some ''l'', num = 1\<rparr>]\<rparr>
     = ''kh2kl1''
   \<and> spec_operator_text \<lparr>op = ''k'', sels = [\<lparr>cat = Some ''h'', num = 2\<rparr>, \<lparr>cat = Some ''l'', num = 1\<rparr>]\<rparr>
     = ''kh2l1''
   \<and> str_operator \<lparr>op = ''k'', sels = [\<lparr>cat = Some ''h'', num = 2\<rparr>, \<lparr>cat = Some ''l'', num = 1\<rparr>]\<rparr>
     \<noteq> spec_operator_text \<lparr>op = ''k'', sels = [\<lparr>cat = Some ''h'', num = 2\<rparr>, \<lparr>cat = Some ''l'', num = 1\<rparr>]\<rparr>
   \<and> str_operator \<lparr>op = ''k'', sels = []\<rparr> = ''''
   \<and> spec_operator_text \<lparr>op = ''k'', sels = []\<rparr> = ''k''"
  by (simp add: str_operator_def spec_operator_text_def str_selector_def str_int_def digit_char_def)

section \<open>Children\<close>

text \<open>
  C10. Dice.children and Die.children are the empty list, while Set.children is the
  set's values (and equals its set view); so no node is a child of a dice pool or of
  a die, although the dice are the pool's set view and the current Literal is the
  die's.
\<close>

theorem C10_children:
  "children (Dice k a n s ds ops c) = []
   \<and> children (Die d) = []
   \<and> children (Set k' a' vs ops') = vs
   \<and> node_set (Set k' a' vs ops') = Inr (children (Set k' a' vs ops'))
   \<and> node_set (Dice k a n s ds ops c) = Inr (map Die ds)
   \<and> node_set (Die (d\<lparr>d_values := ls @ [l]\<rparr>)) = Inr [Literal l]
   \<and> m \<notin> set (children (Dice k a n s ds ops c))
   \<and> m \<notin> set (children (Die d))"
  by simp

section \<open>Members and selection\<close>





lemma member_Inr:
  "node_set t = Inr ms \<Longrightarrow> i < length ms \<Longrightarrow> member t i = Inr (ms ! i)"
  by (simp add: member_def)



lemma sequence_map_Inr_iff:
  "sequence (map f xs) = Inr ys \<longleftrightarrow> list_all2 (\<lambda>x y. f x = Inr y) xs ys"
proof (induction xs arbitrary: ys)
  case Nil
  then show ?case by auto
next
  case (Cons x xs)
  show ?case
  proof (cases ys)
    case Nil
    then show ?thesis by (auto split: sum.splits)
  next
    case (Cons y ys')
    then show ?thesis
      by (auto split: sum.splits simp: Cons.IH [symmetric])
  qed
qed


lemma kept_totals_iff:
  assumes "node_set t = Inr ms"
  shows "kept_totals t = Inr kv \<longleftrightarrow>
     list_all2 (\<lambda>i p. fst p = i \<and> total (ms ! i) = Inr (snd p))
       (filter (\<lambda>i. kept (ms ! i)) [0..<length ms]) kv"
proof -
  have "\<And>i p. ((case total (ms ! i) of Inl x \<Rightarrow> Inl x | Inr v \<Rightarrow> Inr (i, v)) = Inr p)
      = (fst p = i \<and> total (ms ! i) = Inr (snd p))"
    by (auto split: sum.splits)
  then show ?thesis
    using assms by (simp add: kept_totals_def sequence_map_Inr_iff)
qed


lemma list_all2_snd_total:
  "list_all2 (\<lambda>i p. fst p = i \<and> P i p) xs ys \<Longrightarrow> p \<in> set ys \<Longrightarrow> P (fst p) p"
  by (induction rule: list_all2_induct) auto

lemma kept_totals_snd:
  assumes "node_set t = Inr ms" "kept_totals t = Inr kv" "p \<in> set kv"
  shows "total (ms ! fst p) = Inr (snd p)"
proof -
  from assms have "list_all2 (\<lambda>i p. fst p = i \<and> total (ms ! i) = Inr (snd p))
       (filter (\<lambda>i. kept (ms ! i)) [0..<length ms]) kv"
    by (simp add: kept_totals_iff)
  from list_all2_snd_total [OF this assms(3)] show ?thesis .
qed









section \<open>keep\<close>


lemma total_drop_other:
  "i \<noteq> j \<Longrightarrow> total (ms[j := m] ! i) = total (ms ! i)"
  by simp
















section \<open>minimum and maximum\<close>

text \<open>
  The errors that the loop of minimum or maximum can meet come from reading the set,
  reading a member's number, or calling force_value on a member that has no such
  method; none of them is the invalid-selector error.
\<close>

lemma div_zero_only_simps [simp]:
  "div_zero_only (RollValueError m) = (m = ''Cannot divide by zero.'')"
  "div_zero_only ZeroDivisionError" "div_zero_only KeyError" "div_zero_only IndexError"
  "div_zero_only AttributeError" "div_zero_only TooManyRolls" "div_zero_only OutOfRolls"
  "div_zero_only FloatResult"
  by (simp_all add: div_zero_only_def)

lemma sum_results_error:
  "sum_results xs = Inl e \<Longrightarrow> Inl e \<in> set xs"
  by (induction xs) (auto split: sum.splits)

lemma binop_number_error:
  assumes "binop_number o2 lt rt = Inl e"
    and "\<And>x. lt = Inl x \<Longrightarrow> div_zero_only x" and "\<And>x. rt = Inl x \<Longrightarrow> div_zero_only x"
  shows "div_zero_only e"
proof (cases "BINARY_OPS o2")
  case None
  with assms(1) show ?thesis by (simp add: binop_number_def)
next
  case (Some f)
  show ?thesis
  proof (cases lt)
    case (Inl x)
    with assms Some show ?thesis by (simp add: binop_number_def)
  next
    case l: (Inr l)
    show ?thesis
    proof (cases rt)
      case (Inl x)
      with assms Some l show ?thesis by (simp add: binop_number_def)
    next
      case r: (Inr r)
      from Some have "f l r = Inl ZeroDivisionError \<or> f l r = Inl FloatResult \<or> (\<exists>v. f l r = Inr v)"
        by (auto simp: BINARY_OPS_def py_truediv_def py_floordiv_def py_mod_def split: if_splits)
      with assms(1) Some l r show ?thesis by (auto simp: binop_number_def)
    qed
  qed
qed

lemma unop_number_error:
  "unop_number o1 vt = Inl e \<Longrightarrow> (\<And>x. vt = Inl x \<Longrightarrow> div_zero_only x) \<Longrightarrow> div_zero_only e"
  by (auto simp: unop_number_def split: option.splits sum.splits)

lemma die_number_error: "die_number d = Inl e \<Longrightarrow> e = IndexError"
  by (auto simp: die_number_def lit_total_def lit_number_def split: if_splits)

lemma number_total_error:
  "(number t = Inl e \<longrightarrow> div_zero_only e) \<and> (total t = Inl e \<longrightarrow> div_zero_only e)"
proof (induction t arbitrary: e)
  case (Expression k a r c)
  then show ?case by simp
next
  case (Literal l)
  then show ?case by (auto simp: lit_total_def lit_number_def split: if_splits)
next
  case (UnOp k a o1 v)
  then show ?case by (auto dest: unop_number_error)
next
  case (BinOp k a l o2 r)
  then show ?case by (auto dest!: binop_number_error)
next
  case (Parenthetical k a v ops)
  then show ?case by simp
next
  case (Set k a vs ops)
  have "sum_results (map number (filter kept vs)) = Inl e \<Longrightarrow> div_zero_only e"
  proof -
    assume "sum_results (map number (filter kept vs)) = Inl e"
    then have "Inl e \<in> set (map number (filter kept vs))" by (rule sum_results_error)
    then obtain v where "v \<in> set vs" "number v = Inl e" by auto
    with Set.IH show ?thesis by blast
  qed
  then show ?case by simp
next
  case (Dice k a n s ds ops c)
  have "sum_results (map die_number (filter d_kept ds)) = Inl e \<Longrightarrow> div_zero_only e"
  proof -
    assume "sum_results (map die_number (filter d_kept ds)) = Inl e"
    then have "Inl e \<in> set (map die_number (filter d_kept ds))" by (rule sum_results_error)
    then obtain d where "die_number d = Inl e" by auto
    then show ?thesis by (auto dest: die_number_error)
  qed
  then show ?case by simp
next
  case (Die d)
  then show ?case by (auto simp: die_total_def dest: die_number_error split: if_splits)
qed

lemma node_set_error: "node_set t = Inl e \<Longrightarrow> e = IndexError"
  by (induction t) (auto split: if_splits)

lemma member_error: "member t i = Inl e \<Longrightarrow> e = IndexError"
  by (auto simp: member_def dest: node_set_error split: sum.splits if_splits)

lemma keptset_error: "keptset t = Inl e \<Longrightarrow> e = IndexError"
  by (auto simp: keptset_def dest: node_set_error split: sum.splits)

lemma force_value_node_error: "force_value_node m v = Inl e \<Longrightarrow> e = AttributeError"
  by (cases m) auto

lemma minimum_each_error:
  "minimum_each th is t = Inl e \<Longrightarrow> div_zero_only e"
proof (induction "is" arbitrary: t)
  case Nil
  then show ?case by simp
next
  case (Cons i "is")
  show ?case
  proof (cases "member t i")
    case (Inl x)
    with Cons.prems show ?thesis by (auto dest: member_error)
  next
    case m: (Inr m)
    show ?thesis
    proof (cases "number m")
      case (Inl x)
      with Cons.prems m number_total_error [of m x] show ?thesis by auto
    next
      case v: (Inr v)
      show ?thesis
      proof (cases "v < th")
        case False
        with Cons.prems m v Cons.IH show ?thesis by auto
      next
        case True
        show ?thesis
        proof (cases "force_value_node m th")
          case (Inl x)
          with Cons.prems m v True show ?thesis by (auto dest: force_value_node_error)
        next
          case (Inr m')
          with Cons.prems m v True Cons.IH show ?thesis by auto
        qed
      qed
    qed
  qed
qed

lemma maximum_each_error:
  "maximum_each th is t = Inl e \<Longrightarrow> div_zero_only e"
proof (induction "is" arbitrary: t)
  case Nil
  then show ?case by simp
next
  case (Cons i "is")
  show ?case
  proof (cases "member t i")
    case (Inl x)
    with Cons.prems show ?thesis by (auto dest: member_error)
  next
    case m: (Inr m)
    show ?thesis
    proof (cases "number m")
      case (Inl x)
      with Cons.prems m number_total_error [of m x] show ?thesis by auto
    next
      case v: (Inr v)
      show ?thesis
      proof (cases "v > th")
        case False
        with Cons.prems m v Cons.IH show ?thesis by auto
      next
        case True
        show ?thesis
        proof (cases "force_value_node m th")
          case (Inl x)
          with Cons.prems m v True show ?thesis by (auto dest: force_value_node_error)
        next
          case (Inr m')
          with Cons.prems m v True Cons.IH show ?thesis by auto
        qed
      qed
    qed
  qed
qed

lemma not_div_zero_min: "m @ '' is not a valid selector for minimums.'' \<noteq> ''Cannot divide by zero.''"
proof
  assume "m @ '' is not a valid selector for minimums.'' = ''Cannot divide by zero.''"
  then have "rev (m @ '' is not a valid selector for minimums.'') = rev ''Cannot divide by zero.''"
    by (rule arg_cong)
  then show False by simp
qed

lemma not_div_zero_max: "m @ '' is not a valid selector for maximums.'' \<noteq> ''Cannot divide by zero.''"
proof
  assume "m @ '' is not a valid selector for maximums.'' = ''Cannot divide by zero.''"
  then have "rev (m @ '' is not a valid selector for maximums.'') = rev ''Cannot divide by zero.''"
    by (rule arg_cong)
  then show False by simp
qed

lemma minimum_invalid_iff:
  "(\<exists>m. minimum so t = Inl (RollValueError (m @ '' is not a valid selector for minimums.'')))
     \<longleftrightarrow> sels so \<noteq> [] \<and> cat (last (sels so)) \<noteq> None"
proof
  assume "\<exists>m. minimum so t = Inl (RollValueError (m @ '' is not a valid selector for minimums.''))"
  then obtain m where m: "minimum so t = Inl (RollValueError (m @ '' is not a valid selector for minimums.''))"
    by blast
  show "sels so \<noteq> [] \<and> cat (last (sels so)) \<noteq> None"
  proof (rule ccontr)
    assume n: "\<not> (sels so \<noteq> [] \<and> cat (last (sels so)) \<noteq> None)"
    show False
    proof (cases "sels so = []")
      case True
      with m show False by (simp add: minimum_def)
    next
      case False
      with n have c: "cat (last (sels so)) = None" by simp
      show False
      proof (cases "keptset t")
        case (Inl x)
        with m False c show False by (auto simp: minimum_def Let_def dest: keptset_error)
      next
        case (Inr ks)
        with m False c have "minimum_each (num (last (sels so))) ks t
            = Inl (RollValueError (m @ '' is not a valid selector for minimums.''))"
          by (simp add: minimum_def Let_def)
        from minimum_each_error [OF this] show False by (simp add: not_div_zero_min)
      qed
    qed
  qed
next
  assume "sels so \<noteq> [] \<and> cat (last (sels so)) \<noteq> None"
  then have "minimum so t = Inl (RollValueError (str_selector (last (sels so)) @ '' is not a valid selector for minimums.''))"
    by (simp add: minimum_def Let_def)
  then show "\<exists>m. minimum so t = Inl (RollValueError (m @ '' is not a valid selector for minimums.''))"
    by blast
qed

lemma maximum_invalid_iff:
  "(\<exists>m. maximum so t = Inl (RollValueError (m @ '' is not a valid selector for maximums.'')))
     \<longleftrightarrow> sels so \<noteq> [] \<and> cat (last (sels so)) \<noteq> None"
proof
  assume "\<exists>m. maximum so t = Inl (RollValueError (m @ '' is not a valid selector for maximums.''))"
  then obtain m where m: "maximum so t = Inl (RollValueError (m @ '' is not a valid selector for maximums.''))"
    by blast
  show "sels so \<noteq> [] \<and> cat (last (sels so)) \<noteq> None"
  proof (rule ccontr)
    assume n: "\<not> (sels so \<noteq> [] \<and> cat (last (sels so)) \<noteq> None)"
    show False
    proof (cases "sels so = []")
      case True
      with m show False by (simp add: maximum_def)
    next
      case False
      with n have c: "cat (last (sels so)) = None" by simp
      show False
      proof (cases "keptset t")
        case (Inl x)
        with m False c show False by (auto simp: maximum_def Let_def dest: keptset_error)
      next
        case (Inr ks)
        with m False c have "maximum_each (num (last (sels so))) ks t
            = Inl (RollValueError (m @ '' is not a valid selector for maximums.''))"
          by (simp add: maximum_def Let_def)
        from maximum_each_error [OF this] show False by (simp add: not_div_zero_max)
      qed
    qed
  qed
next
  assume "sels so \<noteq> [] \<and> cat (last (sels so)) \<noteq> None"
  then have "maximum so t = Inl (RollValueError (str_selector (last (sels so)) @ '' is not a valid selector for maximums.''))"
    by (simp add: maximum_def Let_def)
  then show "\<exists>m. maximum so t = Inl (RollValueError (m @ '' is not a valid selector for maximums.''))"
    by blast
qed


lemma member_Dice:
  "i < length ds \<Longrightarrow> member (Dice k a n s ds ops c) i = Inr (Die (ds ! i))"
  by (simp add: member_def)

lemma keptset_Dice:
  "keptset (Dice k a n s ds ops c) = Inr (filter (\<lambda>i. d_kept (ds ! i)) [0..<length ds])"
  by (auto simp: keptset_def intro!: filter_cong)

lemma map_positions:
  "map (\<lambda>j. if j \<in> set (filter (\<lambda>i. P (xs ! i)) [0..<length xs]) \<and> Q (xs ! j) then f (xs ! j) else xs ! j)
       [0..<length xs]
     = map (\<lambda>x. if P x \<and> Q x then f x else x) xs"
  by (rule nth_equalityI) simp_all

lemma minimum_each_Dice:
  "distinct is \<Longrightarrow> \<forall>i\<in>set is. i < length ds \<and> (\<exists>v. die_number (ds ! i) = Inr v)
    \<Longrightarrow> minimum_each th is (Dice k a n s ds ops c)
        = Inr (Dice k a n s
            (map (\<lambda>j. if j \<in> set is \<and> (\<exists>v. die_number (ds ! j) = Inr v \<and> v < th)
                       then die_force_value (ds ! j) th else ds ! j) [0..<length ds]) ops c)"
proof (induction "is" arbitrary: ds)
  case Nil
  then show ?case by (simp add: map_nth)
next
  case (Cons i "is")
  from Cons.prems have i: "i < length ds" and ni: "i \<notin> set is" and d: "distinct is"
    and rest: "\<forall>j\<in>set is. j < length ds \<and> (\<exists>v. die_number (ds ! j) = Inr v)"
    by simp_all
  from Cons.prems obtain v where v: "die_number (ds ! i) = Inr v" by auto
  show ?case
  proof (cases "v < th")
    case False
    with i v have "minimum_each th (i # is) (Dice k a n s ds ops c)
        = minimum_each th is (Dice k a n s ds ops c)"
      by (simp add: member_Dice)
    also have "\<dots> = Inr (Dice k a n s
            (map (\<lambda>j. if j \<in> set is \<and> (\<exists>v. die_number (ds ! j) = Inr v \<and> v < th)
                       then die_force_value (ds ! j) th else ds ! j) [0..<length ds]) ops c)"
      using Cons.IH [OF d rest] .
    also have "map (\<lambda>j. if j \<in> set is \<and> (\<exists>v. die_number (ds ! j) = Inr v \<and> v < th)
                       then die_force_value (ds ! j) th else ds ! j) [0..<length ds]
        = map (\<lambda>j. if j \<in> set (i # is) \<and> (\<exists>v. die_number (ds ! j) = Inr v \<and> v < th)
                       then die_force_value (ds ! j) th else ds ! j) [0..<length ds]"
      using False v by (intro map_cong) auto
    finally show ?thesis .
  next
    case True
    let ?ds = "ds[i := die_force_value (ds ! i) th]"
    have rest': "\<forall>j\<in>set is. j < length ?ds \<and> (\<exists>v. die_number (?ds ! j) = Inr v)"
    proof
      fix j assume j: "j \<in> set is"
      with ni have "j \<noteq> i" by auto
      then have "?ds ! j = ds ! j" by simp
      with rest j show "j < length ?ds \<and> (\<exists>v. die_number (?ds ! j) = Inr v)" by simp
    qed
    from True i v have "minimum_each th (i # is) (Dice k a n s ds ops c)
        = minimum_each th is (Dice k a n s ?ds ops c)"
      by (simp add: member_Dice)
    also have "\<dots> = Inr (Dice k a n s
            (map (\<lambda>j. if j \<in> set is \<and> (\<exists>v. die_number (?ds ! j) = Inr v \<and> v < th)
                       then die_force_value (?ds ! j) th else ?ds ! j) [0..<length ?ds]) ops c)"
      using Cons.IH [OF d rest'] .
    also have "map (\<lambda>j. if j \<in> set is \<and> (\<exists>v. die_number (?ds ! j) = Inr v \<and> v < th)
                       then die_force_value (?ds ! j) th else ?ds ! j) [0..<length ?ds]
        = map (\<lambda>j. if j \<in> set (i # is) \<and> (\<exists>v. die_number (ds ! j) = Inr v \<and> v < th)
                       then die_force_value (ds ! j) th else ds ! j) [0..<length ds]"
      using True v ni i by (intro nth_equalityI) (auto simp: nth_list_update)
    finally show ?thesis .
  qed
qed

lemma minimum_Dice:
  assumes "sels so \<noteq> []" and "cat (last (sels so)) = None"
    and "\<forall>d\<in>set ds. d_kept d \<longrightarrow> (\<exists>v. die_number d = Inr v)"
  shows "minimum so (Dice k a n s ds ops c)
     = Inr (Dice k a n s
         (map (\<lambda>d. if d_kept d \<and> (\<exists>v. die_number d = Inr v \<and> v < num (last (sels so)))
                    then die_force_value d (num (last (sels so))) else d) ds) ops c)"
proof -
  let ?ks = "filter (\<lambda>i. d_kept (ds ! i)) [0..<length ds]"
  have d: "distinct ?ks" by simp
  from assms(3) have r: "\<forall>i\<in>set ?ks. i < length ds \<and> (\<exists>v. die_number (ds ! i) = Inr v)"
    by simp
  from assms(1,2) have "minimum so (Dice k a n s ds ops c)
      = minimum_each (num (last (sels so))) ?ks (Dice k a n s ds ops c)"
    by (simp add: minimum_def Let_def keptset_Dice)
  also note minimum_each_Dice [OF d r]
  also note map_positions [of d_kept ds "\<lambda>d. \<exists>v. die_number d = Inr v \<and> v < num (last (sels so))"
      "\<lambda>d. die_force_value d (num (last (sels so)))"]
  finally show ?thesis .
qed
lemma maximum_each_Dice:
  "distinct is \<Longrightarrow> \<forall>i\<in>set is. i < length ds \<and> (\<exists>v. die_number (ds ! i) = Inr v)
    \<Longrightarrow> maximum_each th is (Dice k a n s ds ops c)
        = Inr (Dice k a n s
            (map (\<lambda>j. if j \<in> set is \<and> (\<exists>v. die_number (ds ! j) = Inr v \<and> v > th)
                       then die_force_value (ds ! j) th else ds ! j) [0..<length ds]) ops c)"
proof (induction "is" arbitrary: ds)
  case Nil
  then show ?case by (simp add: map_nth)
next
  case (Cons i "is")
  from Cons.prems have i: "i < length ds" and ni: "i \<notin> set is" and d: "distinct is"
    and rest: "\<forall>j\<in>set is. j < length ds \<and> (\<exists>v. die_number (ds ! j) = Inr v)"
    by simp_all
  from Cons.prems obtain v where v: "die_number (ds ! i) = Inr v" by auto
  show ?case
  proof (cases "v > th")
    case False
    with i v have "maximum_each th (i # is) (Dice k a n s ds ops c)
        = maximum_each th is (Dice k a n s ds ops c)"
      by (simp add: member_Dice)
    also have "\<dots> = Inr (Dice k a n s
            (map (\<lambda>j. if j \<in> set is \<and> (\<exists>v. die_number (ds ! j) = Inr v \<and> v > th)
                       then die_force_value (ds ! j) th else ds ! j) [0..<length ds]) ops c)"
      using Cons.IH [OF d rest] .
    also have "map (\<lambda>j. if j \<in> set is \<and> (\<exists>v. die_number (ds ! j) = Inr v \<and> v > th)
                       then die_force_value (ds ! j) th else ds ! j) [0..<length ds]
        = map (\<lambda>j. if j \<in> set (i # is) \<and> (\<exists>v. die_number (ds ! j) = Inr v \<and> v > th)
                       then die_force_value (ds ! j) th else ds ! j) [0..<length ds]"
      using False v by (intro map_cong) auto
    finally show ?thesis .
  next
    case True
    let ?ds = "ds[i := die_force_value (ds ! i) th]"
    have rest': "\<forall>j\<in>set is. j < length ?ds \<and> (\<exists>v. die_number (?ds ! j) = Inr v)"
    proof
      fix j assume j: "j \<in> set is"
      with ni have "j \<noteq> i" by auto
      then have "?ds ! j = ds ! j" by simp
      with rest j show "j < length ?ds \<and> (\<exists>v. die_number (?ds ! j) = Inr v)" by simp
    qed
    from True i v have "maximum_each th (i # is) (Dice k a n s ds ops c)
        = maximum_each th is (Dice k a n s ?ds ops c)"
      by (simp add: member_Dice)
    also have "\<dots> = Inr (Dice k a n s
            (map (\<lambda>j. if j \<in> set is \<and> (\<exists>v. die_number (?ds ! j) = Inr v \<and> v > th)
                       then die_force_value (?ds ! j) th else ?ds ! j) [0..<length ?ds]) ops c)"
      using Cons.IH [OF d rest'] .
    also have "map (\<lambda>j. if j \<in> set is \<and> (\<exists>v. die_number (?ds ! j) = Inr v \<and> v > th)
                       then die_force_value (?ds ! j) th else ?ds ! j) [0..<length ?ds]
        = map (\<lambda>j. if j \<in> set (i # is) \<and> (\<exists>v. die_number (ds ! j) = Inr v \<and> v > th)
                       then die_force_value (ds ! j) th else ds ! j) [0..<length ds]"
      using True v ni i by (intro nth_equalityI) (auto simp: nth_list_update)
    finally show ?thesis .
  qed
qed

lemma maximum_Dice:
  assumes "sels so \<noteq> []" and "cat (last (sels so)) = None"
    and "\<forall>d\<in>set ds. d_kept d \<longrightarrow> (\<exists>v. die_number d = Inr v)"
  shows "maximum so (Dice k a n s ds ops c)
     = Inr (Dice k a n s
         (map (\<lambda>d. if d_kept d \<and> (\<exists>v. die_number d = Inr v \<and> v > num (last (sels so)))
                    then die_force_value d (num (last (sels so))) else d) ds) ops c)"
proof -
  let ?ks = "filter (\<lambda>i. d_kept (ds ! i)) [0..<length ds]"
  have d: "distinct ?ks" by simp
  from assms(3) have r: "\<forall>i\<in>set ?ks. i < length ds \<and> (\<exists>v. die_number (ds ! i) = Inr v)"
    by simp
  from assms(1,2) have "maximum so (Dice k a n s ds ops c)
      = maximum_each (num (last (sels so))) ?ks (Dice k a n s ds ops c)"
    by (simp add: maximum_def Let_def keptset_Dice)
  also note maximum_each_Dice [OF d r]
  also note map_positions [of d_kept ds "\<lambda>d. \<exists>v. die_number d = Inr v \<and> v > num (last (sels so))"
      "\<lambda>d. die_force_value d (num (last (sels so)))"]
  finally show ?thesis .
qed


lemma die_force_value_last:
  "d_values d = ls @ [l] \<Longrightarrow>
     die_force_value d th = d\<lparr>d_values := ls @ [l\<lparr>l_values := l_values l @ [th]\<rparr>]\<rparr>
   \<and> (l_kept l \<longrightarrow> die_number (die_force_value d th) = Inr th)"
  by (simp add: die_force_value_def lit_update_def die_number_def lit_total_def lit_number_def)

text \<open>
  C7. minimum (and likewise maximum) fails with the RollValueError "... is not a valid
  selector for minimums." exactly when the operator has a last selector and that
  selector has a category; the message then starts with the selector's text. (Without
  any selector, \<open>self.sels[-1]\<close> raises IndexError instead.) Otherwise, on a pool whose
  kept dice all have a value, the single pass returns the pool in which every kept die
  whose number is below (above) the last selector's number has had that number
  appended by force_value, all other dice being unchanged. force_value appends the
  threshold to the value history of the die's current Literal: the prior values
  remain, and the die's number is the threshold. Minimum 3 on a die showing 1 gives
  the history 1, 3 and the total 3.
\<close>

theorem C7_minimum_maximum:
  "((\<exists>m. minimum so t = Inl (RollValueError (m @ '' is not a valid selector for minimums.'')))
      \<longleftrightarrow> sels so \<noteq> [] \<and> cat (last (sels so)) \<noteq> None)
   \<and> ((\<exists>m. maximum so t = Inl (RollValueError (m @ '' is not a valid selector for maximums.'')))
      \<longleftrightarrow> sels so \<noteq> [] \<and> cat (last (sels so)) \<noteq> None)
   \<and> (sels so \<noteq> [] \<and> cat (last (sels so)) \<noteq> None \<longrightarrow>
        minimum so t = Inl (RollValueError
          (str_selector (last (sels so)) @ '' is not a valid selector for minimums.''))
      \<and> maximum so t = Inl (RollValueError
          (str_selector (last (sels so)) @ '' is not a valid selector for maximums.'')))
   \<and> (sels so \<noteq> [] \<and> cat (last (sels so)) = None
        \<and> (\<forall>x\<in>set ds. d_kept x \<longrightarrow> (\<exists>v. die_number x = Inr v)) \<longrightarrow>
        minimum so (Dice k a n s ds ops c)
          = Inr (Dice k a n s
              (map (\<lambda>x. if d_kept x \<and> (\<exists>v. die_number x = Inr v \<and> v < num (last (sels so)))
                         then die_force_value x (num (last (sels so))) else x) ds) ops c)
      \<and> maximum so (Dice k a n s ds ops c)
          = Inr (Dice k a n s
              (map (\<lambda>x. if d_kept x \<and> (\<exists>v. die_number x = Inr v \<and> v > num (last (sels so)))
                         then die_force_value x (num (last (sels so))) else x) ds) ops c))
   \<and> (d_values d = ls @ [l] \<longrightarrow>
        die_force_value d th = d\<lparr>d_values := ls @ [l\<lparr>l_values := l_values l @ [th]\<rparr>]\<rparr>
      \<and> (l_kept l \<longrightarrow> die_number (die_force_value d th) = Inr th))
   \<and> minimum \<lparr>op = ''mi'', sels = [\<lparr>cat = None, num = 3\<rparr>]\<rparr>
        (Dice True None 1 6 [die_init 6 [new_literal 1] None] [] None)
       = Inr (Dice True None 1 6
           [die_init 6 [\<lparr>l_kept = True, l_annotation = None, l_values = [1, 3], l_exploded = False\<rparr>] None]
           [] None)
   \<and> total (Dice True None 1 6
           [die_init 6 [\<lparr>l_kept = True, l_annotation = None, l_values = [1, 3], l_exploded = False\<rparr>] None]
           [] None) = Inr 3"
proof (intro conjI)
  show "(\<exists>m. minimum so t = Inl (RollValueError (m @ '' is not a valid selector for minimums.'')))
      \<longleftrightarrow> sels so \<noteq> [] \<and> cat (last (sels so)) \<noteq> None"
    by (rule minimum_invalid_iff)
  show "(\<exists>m. maximum so t = Inl (RollValueError (m @ '' is not a valid selector for maximums.'')))
      \<longleftrightarrow> sels so \<noteq> [] \<and> cat (last (sels so)) \<noteq> None"
    by (rule maximum_invalid_iff)
  show "sels so \<noteq> [] \<and> cat (last (sels so)) \<noteq> None \<longrightarrow>
        minimum so t = Inl (RollValueError
          (str_selector (last (sels so)) @ '' is not a valid selector for minimums.''))
      \<and> maximum so t = Inl (RollValueError
          (str_selector (last (sels so)) @ '' is not a valid selector for maximums.''))"
    by (simp add: minimum_def maximum_def Let_def)
  show "sels so \<noteq> [] \<and> cat (last (sels so)) = None
        \<and> (\<forall>x\<in>set ds. d_kept x \<longrightarrow> (\<exists>v. die_number x = Inr v)) \<longrightarrow>
        minimum so (Dice k a n s ds ops c)
          = Inr (Dice k a n s
              (map (\<lambda>x. if d_kept x \<and> (\<exists>v. die_number x = Inr v \<and> v < num (last (sels so)))
                         then die_force_value x (num (last (sels so))) else x) ds) ops c)
      \<and> maximum so (Dice k a n s ds ops c)
          = Inr (Dice k a n s
              (map (\<lambda>x. if d_kept x \<and> (\<exists>v. die_number x = Inr v \<and> v > num (last (sels so)))
                         then die_force_value x (num (last (sels so))) else x) ds) ops c)"
    using minimum_Dice [of so ds k a n s ops c] maximum_Dice [of so ds k a n s ops c] by blast
  show "d_values d = ls @ [l] \<longrightarrow>
        die_force_value d th = d\<lparr>d_values := ls @ [l\<lparr>l_values := l_values l @ [th]\<rparr>]\<rparr>
      \<and> (l_kept l \<longrightarrow> die_number (die_force_value d th) = Inr th)"
    using die_force_value_last [of d ls l th] by blast
  show "minimum \<lparr>op = ''mi'', sels = [\<lparr>cat = None, num = 3\<rparr>]\<rparr>
        (Dice True None 1 6 [die_init 6 [new_literal 1] None] [] None)
       = Inr (Dice True None 1 6
           [die_init 6 [\<lparr>l_kept = True, l_annotation = None, l_values = [1, 3], l_exploded = False\<rparr>] None]
           [] None)"
    by code_simp
  show "total (Dice True None 1 6
           [die_init 6 [\<lparr>l_kept = True, l_annotation = None, l_values = [1, 3], l_exploded = False\<rparr>] None]
           [] None) = Inr 3"
    by code_simp
qed

theorem C7_minimum_maximum_witness:
  "minimum \<lparr>op = ''mi'', sels = [\<lparr>cat = None, num = 3\<rparr>, \<lparr>cat = Some ''h'', num = 1\<rparr>]\<rparr>
      (Dice True None 1 6 [die_init 6 [new_literal 1] None] [] None)
     = Inl (RollValueError ''h1 is not a valid selector for minimums.'')
   \<and> maximum \<lparr>op = ''ma'', sels = [\<lparr>cat = Some ''h'', num = 1\<rparr>, \<lparr>cat = None, num = 4\<rparr>]\<rparr>
      (Dice True None 3 6 [die_init 6 [new_literal 6] None, die_init 6 [new_literal 2] None,
                           die_drop (die_init 6 [new_literal 5] None)] [] None)
     = Inr (Dice True None 3 6
          [die_init 6 [\<lparr>l_kept = True, l_annotation = None, l_values = [6, 4], l_exploded = False\<rparr>] None,
           die_init 6 [new_literal 2] None,
           die_drop (die_init 6 [new_literal 5] None)] [] None)"
proof -
  let ?so = "\<lparr>op = ''mi'', sels = [\<lparr>cat = None, num = 3\<rparr>, \<lparr>cat = Some ''h'', num = 1\<rparr>]\<rparr>"
  let ?sp = "\<lparr>op = ''ma'', sels = [\<lparr>cat = Some ''h'', num = 1\<rparr>, \<lparr>cat = None, num = 4\<rparr>]\<rparr>"
  let ?ds = "[die_init 6 [new_literal 6] None, die_init 6 [new_literal 2] None,
                           die_drop (die_init 6 [new_literal 5] None)]"
  have s: "str_selector \<lparr>cat = Some ''h'', num = 1\<rparr> = ''h1''"
    by (simp add: str_selector_def str_int_def digit_char_def)
  have a: "minimum ?so (Dice True None 1 6 [die_init 6 [new_literal 1] None] [] None)
     = Inl (RollValueError ''h1 is not a valid selector for minimums.'')"
    using C7_minimum_maximum [THEN conjunct2, THEN conjunct2, THEN conjunct1, of ?so
        "Dice True None 1 6 [die_init 6 [new_literal 1] None] [] None"]
    by (simp add: s)
  have n: "die_number (die_init 6 [new_literal 6] None) = Inr 6"
    "die_number (die_init 6 [new_literal 2] None) = Inr 2"
    "d_kept (die_init 6 [new_literal 6] None)" "d_kept (die_init 6 [new_literal 2] None)"
    "\<not> d_kept (die_drop (die_init 6 [new_literal 5] None))"
    by (simp_all add: die_number_def die_init_def lit_total_def lit_number_def new_literal_def die_drop_def)
  have f: "die_force_value (die_init 6 [new_literal 6] None) 4
     = die_init 6 [\<lparr>l_kept = True, l_annotation = None, l_values = [6, 4], l_exploded = False\<rparr>] None"
    by (simp add: die_force_value_def die_init_def new_literal_def lit_update_def)
  have b: "maximum ?sp (Dice True None 3 6 ?ds [] None)
     = Inr (Dice True None 3 6
          [die_init 6 [\<lparr>l_kept = True, l_annotation = None, l_values = [6, 4], l_exploded = False\<rparr>] None,
           die_init 6 [new_literal 2] None,
           die_drop (die_init 6 [new_literal 5] None)] [] None)"
    using C7_minimum_maximum [THEN conjunct2, THEN conjunct2, THEN conjunct2, THEN conjunct1,
        of ?sp ?ds True None 3 6 "[]" None]
    by (simp add: n f)
  from a b show ?thesis by simp
qed

end
